theory Spec2Isabelle
  imports Main
begin

section \<open>Python text primitives\<close>

text \<open>
  A Python \<open>str\<close> is modelled as a \<open>string\<close> whose characters are the code points below
  256. \<open>is_space\<close> is \<open>str.isspace\<close> on those code points: TAB..CR, FS..US, SPACE, NEL and
  NBSP.
\<close>

definition is_space :: "char \<Rightarrow> bool" where
  "is_space c = (let n = (of_char c :: nat) in
     (9 \<le> n \<and> n \<le> 13) \<or> (28 \<le> n \<and> n \<le> 32) \<or> n = 133 \<or> n = 160)"

text \<open>
  \<open>text.split()\<close>: one left-to-right scan; \<open>cur\<close> is the word being read, a whitespace
  character closes it, runs of whitespace yield no empty words.
\<close>

fun split_from :: "string \<Rightarrow> string \<Rightarrow> string list" where
  "split_from cur [] = (if cur = [] then [] else [cur])"
| "split_from cur (c # cs) =
     (if is_space c then (if cur = [] then split_from [] cs else cur # split_from [] cs)
      else split_from (cur @ [c]) cs)"

definition py_split :: "string \<Rightarrow> string list" where
  "py_split s = split_from [] s"

text \<open>\<open>sep.join(parts)\<close>.\<close>

fun py_join :: "string \<Rightarrow> string list \<Rightarrow> string" where
  "py_join sep [] = []"
| "py_join sep [w] = w"
| "py_join sep (w # v # ws) = w @ sep @ py_join sep (v # ws)"

text \<open>\<open>s.strip()\<close>.\<close>

definition py_strip :: "string \<Rightarrow> string" where
  "py_strip s = rev (dropWhile is_space (rev (dropWhile is_space s)))"

text \<open>
  \<open>xs[i:j]\<close> with unit step: a negative bound counts from the end, and each bound is then
  clipped to \<open>0..len(xs)\<close>.
\<close>

definition adjust_index :: "nat \<Rightarrow> int \<Rightarrow> nat" where
  "adjust_index n i =
     (if i < 0 then (if i + int n < 0 then 0 else nat (i + int n))
      else if int n \<le> i then n else nat i)"

definition py_slice :: "'a list \<Rightarrow> int \<Rightarrow> int \<Rightarrow> 'a list" where
  "py_slice xs i j =
     (let a = adjust_index (length xs) i; b = adjust_index (length xs) j
      in take (b - a) (drop a xs))"

text \<open>
  A table cell read by \<open>pandas.read_csv\<close> is a string, or NaN (\<open>None\<close> here) where the
  field is absent or empty. \<open>py_str\<close> is what an f-string prints for it.
\<close>

type_synonym cell = "string option"

definition py_str :: "cell \<Rightarrow> string" where
  "py_str c = (case c of None \<Rightarrow> ''nan'' | Some s \<Rightarrow> s)"

text \<open>
  The exceptions the modelled code can raise. \<open>LibraryError\<close> stands for an exception raised
  inside a call into an external library (the embedding model, the vector index, the chat
  client); the code never catches any of them.
\<close>

datatype error = TypeError | ZeroDivisionError | IndexError | LibraryError string


section \<open>rag/chunker.py\<close>

text \<open>
  The \<open>while\<close> loop of \<open>chunk_text\<close>. The result is \<open>None\<close> when the loop does not
  return.
\<close>

partial_function (option) chunk_loop ::
  "string list \<Rightarrow> int \<Rightarrow> int \<Rightarrow> int \<Rightarrow> string list \<Rightarrow> string list option" where
  "chunk_loop words chunk_size overlap start chunks =
     (if start < int (length words) then
        (let end = start + chunk_size;
             chunk_words = py_slice words start end;
             chunks' = chunks @ [py_join '' '' chunk_words];
             start' = end - overlap
         in if int (length words) \<le> start' then Some chunks'
            else chunk_loop words chunk_size overlap start' chunks')
      else Some chunks)"

declare chunk_loop.simps [code]

definition chunk_text :: "string \<Rightarrow> int \<Rightarrow> int \<Rightarrow> string list option" where
  "chunk_text text chunk_size overlap =
     (let words = py_split text
      in if int (length words) \<le> chunk_size then Some [text]
         else chunk_loop words chunk_size overlap 0 [])"

record 'i csv_row =
  row_id :: 'i
  row_title :: cell
  row_also_called :: cell
  row_summary :: cell
  row_url :: cell

record 'i chunk_row =
  col_chunk_id :: int
  col_title :: cell
  col_chunk_text :: string
  col_source_id :: 'i
  col_url :: cell

text \<open>
  Lines 53 to 61 of \<open>create_chunks_from_csv\<close>: the combined text of one row. Appending a
  NaN summary to a \<open>str\<close> raises \<open>TypeError\<close>.
\<close>

definition row_full_text :: "'i csv_row \<Rightarrow> error + string" where
  "row_full_text row =
     (let title = row_title row;
          summary = row_summary row;
          also_called = (case row_also_called row of None \<Rightarrow> [] | Some a \<Rightarrow> a);
          full_text = py_str title @ ''. '';
          full_text = (if also_called \<noteq> []
                       then full_text @ ''Also known as: '' @ also_called @ ''. ''
                       else full_text)
      in case summary of None \<Rightarrow> Inl TypeError | Some body \<Rightarrow> Inr (full_text @ body))"

text \<open>The inner \<open>for chunk in chunks\<close> loop; returns the table and the next id.\<close>

fun append_chunks ::
  "'i csv_row \<Rightarrow> string list \<Rightarrow> 'i chunk_row list \<Rightarrow> int \<Rightarrow> 'i chunk_row list \<times> int" where
  "append_chunks row [] all_chunks chunk_id = (all_chunks, chunk_id)"
| "append_chunks row (chunk # chunks) all_chunks chunk_id =
     append_chunks row chunks
       (all_chunks @ [\<lparr>col_chunk_id = chunk_id, col_title = row_title row,
                        col_chunk_text = chunk, col_source_id = row_id row,
                        col_url = row_url row\<rparr>])
       (chunk_id + 1)"

text \<open>
  The outer \<open>for idx, row in df.iterrows()\<close> loop. \<open>None\<close>: a call of \<open>chunk_text\<close> did
  not return; \<open>Some (Inl e)\<close>: exception \<open>e\<close>.
\<close>

fun rows_loop ::
  "'i csv_row list \<Rightarrow> 'i chunk_row list \<Rightarrow> int \<Rightarrow> (error + 'i chunk_row list) option" where
  "rows_loop [] all_chunks chunk_id = Some (Inr all_chunks)"
| "rows_loop (row # rest) all_chunks chunk_id =
     (case row_full_text row of
        Inl e \<Rightarrow> Some (Inl e)
      | Inr full_text \<Rightarrow>
          (case chunk_text full_text 400 50 of
             None \<Rightarrow> None
           | Some chunks \<Rightarrow>
               (case append_chunks row chunks all_chunks chunk_id of
                  (all_chunks', chunk_id') \<Rightarrow> rows_loop rest all_chunks' chunk_id')))"

text \<open>
  \<open>create_chunks_from_csv\<close>, from the rows that \<open>read_csv\<close> delivered. The second
  \<open>print\<close> divides by \<open>len(df)\<close>.
\<close>

definition create_chunks_from_csv :: "'i csv_row list \<Rightarrow> (error + 'i chunk_row list) option" where
  "create_chunks_from_csv df =
     (case rows_loop df [] 0 of
        None \<Rightarrow> None
      | Some (Inl e) \<Rightarrow> Some (Inl e)
      | Some (Inr chunks_df) \<Rightarrow>
          if length df = 0 then Some (Inl ZeroDivisionError) else Some (Inr chunks_df))"


text \<open>
  The chunks that one row contributes: \<open>chunk_text\<close> at 400 and 50 on its combined text
  (none where the row raises).
\<close>

definition row_chunks :: "'i csv_row \<Rightarrow> string list" where
  "row_chunks row =
     (case row_full_text row of
        Inl e \<Rightarrow> []
      | Inr full_text \<Rightarrow> (case chunk_text full_text 400 50 of None \<Rightarrow> [] | Some chunks \<Rightarrow> chunks))"


section \<open>rag/retriever.py\<close>

text \<open>
  The embedding model and the FAISS index are external libraries: the retriever holds their
  two entry points as functions. \<open>index_search emb k\<close> yields row 0 of the two arrays
  \<open>(distances, indices)\<close> that \<open>index.search\<close> returns, or the exception it raised.
\<close>

record ('v, 'd, 'i) retriever =
  model_encode :: "string \<Rightarrow> error + 'v"
  index_search :: "'v \<Rightarrow> int \<Rightarrow> error + ('d list \<times> int list)"
  chunks_df :: "'i chunk_row list"

record 'd retrieval_result =
  res_rank :: int
  res_score :: 'd
  res_title :: cell
  res_text :: string
  res_url :: cell
  res_chunk_id :: int

text \<open>
  \<open>df.iloc[idx]\<close>: a negative position counts from the last row; a position outside the
  table raises \<open>IndexError\<close>.
\<close>

definition iloc :: "'a list \<Rightarrow> int \<Rightarrow> error + 'a" where
  "iloc df idx =
     (if 0 \<le> idx \<and> idx < int (length df) then Inr (df ! nat idx)
      else if idx < 0 \<and> - int (length df) \<le> idx then Inr (df ! nat (int (length df) + idx))
      else Inl IndexError)"

text \<open>The \<open>for i, (dist, idx) in enumerate(zip(...))\<close> loop of \<open>retrieve\<close>.\<close>

fun results_loop ::
  "'i chunk_row list \<Rightarrow> ('d \<times> int) list \<Rightarrow> int \<Rightarrow> 'd retrieval_result list \<Rightarrow>
   error + 'd retrieval_result list" where
  "results_loop df [] i results = Inr results"
| "results_loop df ((dist, idx) # hits) i results =
     (case iloc df idx of
        Inl e \<Rightarrow> Inl e
      | Inr chunk_info \<Rightarrow>
          results_loop df hits (i + 1)
            (results @ [\<lparr>res_rank = i + 1, res_score = dist,
                          res_title = col_title chunk_info,
                          res_text = col_chunk_text chunk_info,
                          res_url = col_url chunk_info,
                          res_chunk_id = col_chunk_id chunk_info\<rparr>]))"

definition retrieve ::
  "('v, 'd, 'i) retriever \<Rightarrow> string \<Rightarrow> int \<Rightarrow> error + 'd retrieval_result list" where
  "retrieve self query top_k =
     (case model_encode self query of
        Inl e \<Rightarrow> Inl e
      | Inr query_embedding \<Rightarrow>
          (case index_search self query_embedding top_k of
             Inl e \<Rightarrow> Inl e
           | Inr (distances, indices) \<Rightarrow>
               results_loop (chunks_df self) (zip distances indices) 0 []))"

text \<open>The loop of \<open>format_context\<close> that fills \<open>context_parts\<close>, and the final join.\<close>

fun context_parts_loop :: "'d retrieval_result list \<Rightarrow> string list \<Rightarrow> string list" where
  "context_parts_loop [] context_parts = context_parts"
| "context_parts_loop (result # results) context_parts =
     context_parts_loop results
       (context_parts @
        [''[Source: '' @ py_str (res_title result) @ '']\<newline>'' @ res_text result @ ''\<newline>''])"

definition format_context :: "'d retrieval_result list \<Rightarrow> string" where
  "format_context results = py_join ''\<newline>---\<newline>'' (context_parts_loop results [])"


section \<open>rag/rag_pipeline.py\<close>

record message =
  role :: string
  content :: string

record 'd source =
  src_title :: cell
  src_url :: cell
  src_relevance_score :: 'd

record 'd diagnosis_result =
  diagnosis :: string
  sources :: "'d source list"

text \<open>
  The pipeline object: its retriever, the chat-completion call of the OpenAI client (prompt
  to reply text, or the exception raised), and \<open>create_diagnosis_prompt\<close> of
  \<open>rag/prompts.py\<close>, a pure string template over the history and the context.
\<close>

record ('v, 'd, 'i) rag_pipeline =
  pipeline_retriever :: "('v, 'd, 'i) retriever"
  client_chat :: "string \<Rightarrow> error + string"
  create_diagnosis_prompt :: "message list \<Rightarrow> string \<Rightarrow> string"

text \<open>
  The calls that leave the process are recorded, in order, in a trace that is threaded
  through the model: one \<open>Retrieval\<close> per call of \<open>retriever.retrieve\<close>, one
  \<open>Generation\<close> per call of \<open>client.chat.completions.create\<close>.
\<close>

datatype event = Retrieval string int | Generation string

definition generate_diagnosis ::
  "('v, 'd, 'i) rag_pipeline \<Rightarrow> string \<Rightarrow> event list \<Rightarrow>
   (error + 'd diagnosis_result) \<times> event list" where
  "generate_diagnosis self user_symptoms trace =
     (let trace1 = trace @ [Retrieval user_symptoms 3]
      in case retrieve (pipeline_retriever self) user_symptoms 3 of
           Inl e \<Rightarrow> (Inl e, trace1)
         | Inr results \<Rightarrow>
             (let context = format_context results;
                  conversation_history = [\<lparr>role = ''user'', content = user_symptoms\<rparr>];
                  prompt = create_diagnosis_prompt self conversation_history context;
                  trace2 = trace1 @ [Generation prompt]
              in case client_chat self prompt of
                   Inl e \<Rightarrow> (Inl e, trace2)
                 | Inr reply \<Rightarrow>
                     (Inr \<lparr>diagnosis = py_strip reply,
                           sources = map (\<lambda>result. \<lparr>src_title = res_title result,
                                                      src_url = res_url result,
                                                      src_relevance_score = res_score result\<rparr>)
                                         results\<rparr>,
                      trace2)))"

record conversation_manager =
  conversation_history :: "message list"
  stage :: string

text \<open>\<open>ConversationManager.__init__\<close>.\<close>

definition new_manager :: conversation_manager where
  "new_manager = \<lparr>conversation_history = [], stage = ''initial''\<rparr>"

definition add_user_message :: "string \<Rightarrow> conversation_manager \<Rightarrow> conversation_manager" where
  "add_user_message msg self =
     self\<lparr>conversation_history :=
            conversation_history self @ [\<lparr>role = ''user'', content = msg\<rparr>]\<rparr>"

definition add_assistant_message :: "string \<Rightarrow> conversation_manager \<Rightarrow> conversation_manager" where
  "add_assistant_message msg self =
     self\<lparr>conversation_history :=
            conversation_history self @ [\<lparr>role = ''assistant'', content = msg\<rparr>]\<rparr>"

text \<open>The two dictionaries \<open>process_message\<close> returns, by their \<open>type\<close> key.\<close>

datatype 'd response =
  Diagnosis_response string "'d source list"
| Complete_response string

definition closing_notice :: string where
  "closing_notice =
     ''Thank you for using the symptom checker. If you have new symptoms, please start a new session.''"

text \<open>
  \<open>process_message\<close> on the manager and the trace. The value is the exception raised, or
  what the call returns: a dictionary, or Python's \<open>None\<close> where neither branch is taken.
\<close>

definition process_message ::
  "('v, 'd, 'i) rag_pipeline \<Rightarrow> string \<Rightarrow> conversation_manager \<times> event list \<Rightarrow>
   (error + 'd response option) \<times> conversation_manager \<times> event list" where
  "process_message pipeline user_input st =
     (case st of (self0, trace) \<Rightarrow>
        (let self1 = add_user_message user_input self0
         in if stage self1 = ''initial'' then
              (let self2 = self1\<lparr>stage := ''diagnosis''\<rparr>
               in case generate_diagnosis pipeline user_input trace of
                    (Inl e, trace') \<Rightarrow> (Inl e, self2, trace')
                  | (Inr result, trace') \<Rightarrow>
                      (let self3 = add_assistant_message (diagnosis result) self2;
                           self4 = self3\<lparr>stage := ''complete''\<rparr>
                       in (Inr (Some (Diagnosis_response (diagnosis result) (sources result))),
                           self4, trace')))
            else if stage self1 = ''complete'' then
              (Inr (Some (Complete_response closing_notice)), self1, trace)
            else (Inr None, self1, trace)))"

text \<open>A session: the messages of one manager, processed in order.\<close>

fun process_messages ::
  "('v, 'd, 'i) rag_pipeline \<Rightarrow> string list \<Rightarrow> conversation_manager \<times> event list \<Rightarrow>
   (error + 'd response option) list \<times> conversation_manager \<times> event list" where
  "process_messages pipeline [] st = ([], st)"
| "process_messages pipeline (user_input # inputs) st =
     (case process_message pipeline user_input st of
        (reply, st') \<Rightarrow>
          (case process_messages pipeline inputs st' of
             (replies, st'') \<Rightarrow> (reply # replies, st'')))"

section \<open>Notions used in the claims\<close>

text \<open>
  What \<open>split\<close> produces: non-empty words without whitespace. Used to read the words of a
  chunk back from its text.
\<close>

definition word_like :: "string \<Rightarrow> bool" where
  "word_like w = (w \<noteq> [] \<and> list_all (\<lambda>c. \<not> is_space c) w)"


text \<open>
  Two chunks share exactly \<open>k\<close> words at their boundary: both have at least \<open>k\<close> words,
  and the last \<open>k\<close> words of the earlier chunk are the first \<open>k\<close> words of the later one.
\<close>

definition shared_at_boundary :: "nat \<Rightarrow> string \<Rightarrow> string \<Rightarrow> bool" where
  "shared_at_boundary k c1 c2 =
     (let w1 = py_split c1; w2 = py_split c2
      in k \<le> length w1 \<and> k \<le> length w2 \<and> drop (length w1 - k) w1 = take k w2)"


text \<open>
  The block that the specification gives for one result: the source label line, the text,
  and a line break.
\<close>

definition spec_context_block :: "'d retrieval_result \<Rightarrow> string" where
  "spec_context_block result =
     ''[Source: '' @ py_str (res_title result) @ '']\<newline>'' @ res_text result @ ''\<newline>''"

text \<open>The dictionary that the loop of \<open>retrieve\<close> builds for one hit, at a given rank.\<close>

definition hit_result :: "'i chunk_row list \<Rightarrow> int \<Rightarrow> 'd \<times> int \<Rightarrow> 'd retrieval_result" where
  "hit_result df rank hit =
     \<lparr>res_rank = rank, res_score = fst hit,
      res_title = col_title (df ! nat (snd hit)),
      res_text = col_chunk_text (df ! nat (snd hit)),
      res_url = col_url (df ! nat (snd hit)),
      res_chunk_id = col_chunk_id (df ! nat (snd hit))\<rparr>"


section \<open>Properties of the text primitives\<close>

lemma split_from_word_like:
  "list_all (\<lambda>c. \<not> is_space c) cur \<Longrightarrow> list_all word_like (split_from cur s)"
  by (induction s arbitrary: cur) (auto simp: word_like_def)

lemma py_split_word_like: "list_all word_like (py_split s)"
  by (simp add: py_split_def split_from_word_like)

lemma split_from_nospace:
  "list_all (\<lambda>c. \<not> is_space c) w \<Longrightarrow> split_from cur (w @ s) = split_from (cur @ w) s"
  by (induction w arbitrary: cur) auto

lemma space_is_space: "is_space CHR '' ''"
  by (simp add: is_space_def)

lemma split_from_join:
  "list_all word_like ws \<Longrightarrow> list_all (\<lambda>c. \<not> is_space c) cur \<Longrightarrow>
   split_from cur (py_join '' '' ws) = (case ws of [] \<Rightarrow> (if cur = [] then [] else [cur])
      | w # rest \<Rightarrow> (cur @ w) # rest)"
proof (induction "'' ''" ws arbitrary: cur rule: py_join.induct)
  case 1
  then show ?case by simp
next
  case (2 w)
  then show ?case using split_from_nospace[of w cur "[]"] by (simp add: word_like_def)
next
  case (3 w v ws)
  have "split_from cur (w @ '' '' @ py_join '' '' (v # ws)) = split_from (cur @ w) ('' '' @ py_join '' '' (v # ws))"
    using 3 split_from_nospace[of w cur] by (simp add: word_like_def)
  also have "\<dots> = (cur @ w) # split_from [] (py_join '' '' (v # ws))"
    using 3 by (simp add: space_is_space word_like_def)
  also have "split_from [] (py_join '' '' (v # ws)) = v # ws"
    using 3 by simp
  finally show ?case by simp
qed

lemma py_split_join: "list_all word_like ws \<Longrightarrow> py_split (py_join '' '' ws) = ws"
  using split_from_join[of ws "[]"] by (simp add: py_split_def split: list.splits)

section \<open>Properties of the chunking loop\<close>

lemma chunk_loop_terminates:
  assumes "overlap < chunk_size"
  shows "\<exists>r. chunk_loop words chunk_size overlap start chunks = Some r"
proof (induction "nat (int (length words) - start)" arbitrary: start chunks rule: less_induct)
  case less
  show ?case
  proof (cases "start < int (length words)")
    case False
    then show ?thesis by (subst chunk_loop.simps) simp
  next
    case True
    let ?start' = "start + chunk_size - overlap"
    show ?thesis
    proof (cases "int (length words) \<le> ?start'")
      case True
      then show ?thesis by (subst chunk_loop.simps) (simp add: Let_def)
    next
      case False
      have "nat (int (length words) - ?start') < nat (int (length words) - start)"
        using assms True by linarith
      from less[OF this] obtain r where
        "chunk_loop words chunk_size overlap ?start'
           (chunks @ [py_join '' '' (py_slice words start (start + chunk_size))]) = Some r"
        by blast
      then show ?thesis using True False by (subst chunk_loop.simps) (simp add: Let_def)
    qed
  qed
qed

lemma chunk_loop_diverges:
  assumes "chunk_loop words chunk_size overlap start chunks = Some r"
  shows "\<not> (chunk_size \<le> overlap \<and> start < int (length words))"
proof (rule chunk_loop.raw_induct
    [where P = "\<lambda>ws cs ov st acc res. \<not> (cs \<le> ov \<and> st < int (length ws))", OF _ assms])
  fix f :: "string list \<Rightarrow> int \<Rightarrow> int \<Rightarrow> int \<Rightarrow> string list \<Rightarrow> string list option"
    and ws cs ov st acc res
  assume IH: "\<And>ws cs ov st acc res. f ws cs ov st acc = Some res \<Longrightarrow>
                 \<not> (cs \<le> ov \<and> st < int (length ws))"
  assume step: "(if st < int (length ws) then
        (let end = st + cs;
             chunk_words = py_slice ws st end;
             chunks' = acc @ [py_join '' '' chunk_words];
             start' = end - ov
         in if int (length ws) \<le> start' then Some chunks'
            else f ws cs ov start' chunks')
      else Some acc) = Some res"
  show "\<not> (cs \<le> ov \<and> st < int (length ws))"
  proof
    assume bad: "cs \<le> ov \<and> st < int (length ws)"
    then have "\<not> int (length ws) \<le> st + cs - ov" by linarith
    with bad step have "f ws cs ov (st + cs - ov)
        (acc @ [py_join '' '' (py_slice ws st (st + cs))]) = Some res"
      by (simp add: Let_def)
    from IH[OF this] bad show False by linarith
  qed
qed

lemma chunk_text_diverges:
  assumes "chunk_size < int (length (py_split text))" "chunk_size \<le> overlap"
    and "py_split text \<noteq> []"
  shows "chunk_text text chunk_size overlap = None"
proof (cases "chunk_text text chunk_size overlap")
  case None then show ?thesis .
next
  case (Some r)
  with assms have "chunk_loop (py_split text) chunk_size overlap 0 [] = Some r"
    by (simp add: chunk_text_def Let_def)
  from chunk_loop_diverges[OF this] assms show ?thesis by simp
qed

lemma py_slice_window:
  "0 \<le> c \<Longrightarrow> py_slice xs (int s) (int s + c) = take (nat c) (drop s xs)"
  by (auto simp: py_slice_def adjust_index_def Let_def min_def nat_add_distrib)

lemma word_like_window: "list_all word_like ws \<Longrightarrow> list_all word_like (take c (drop s ws))"
  by (auto simp: list_all_iff dest: in_set_takeD in_set_dropD)

lemma chunk_loop_step:
  assumes "0 \<le> ov" "ov < cs" "s < length ws"
  shows "chunk_loop ws cs ov (int s) acc =
     (if length ws \<le> s + nat (cs - ov)
      then Some (acc @ [py_join '' '' (take (nat cs) (drop s ws))])
      else chunk_loop ws cs ov (int (s + nat (cs - ov)))
             (acc @ [py_join '' '' (take (nat cs) (drop s ws))]))"
proof -
  have e: "int s + cs - ov = int (s + nat (cs - ov))" using assms by simp
  have w: "py_slice ws (int s) (int s + cs) = take (nat cs) (drop s ws)"
    using assms by (simp add: py_slice_window)
  show ?thesis
    using assms by (subst chunk_loop.simps) (simp add: Let_def w e del: of_nat_add)
qed

lemma chunk_loop_windows:
  assumes ov: "0 \<le> ov" "ov < cs" and wl: "list_all word_like ws"
  shows "s < length ws \<Longrightarrow>
    \<exists>cks. chunk_loop ws cs ov (int s) acc = Some (acc @ cks) \<and> cks \<noteq> [] \<and>
      py_split (hd cks) = take (nat cs) (drop s ws) \<and>
      (\<forall>i. Suc i < length cks \<longrightarrow>
         drop (nat (cs - ov)) (py_split (cks ! i)) = take (nat ov) (py_split (cks ! Suc i))) \<and>
      concat (map (\<lambda>ck. drop (nat ov) (py_split ck)) cks) = drop (s + nat ov) ws"
proof (induction "length ws - s" arbitrary: s acc rule: less_induct)
  case less
  define c where "c = nat cs"
  define ol where "ol = nat ov"
  define st where "st = nat (cs - ov)"
  have cst: "c = st + ol" "0 < st" using ov by (auto simp: c_def ol_def st_def)
  define w0 where "w0 = take c (drop s ws)"
  define c0 where "c0 = py_join '' '' w0"
  have sp0: "py_split c0 = w0"
    unfolding c0_def w0_def by (rule py_split_join) (rule word_like_window[OF wl])
  have d0: "drop ol w0 = take st (drop (s + ol) ws)"
    by (simp add: w0_def cst drop_take add.commute)
  have stepeq: "chunk_loop ws cs ov (int s) acc =
     (if length ws \<le> s + st then Some (acc @ [c0])
      else chunk_loop ws cs ov (int (s + st)) (acc @ [c0]))"
    using chunk_loop_step[OF ov less.prems, of acc] by (simp add: c0_def w0_def c_def st_def)
  show ?case
  proof (cases "length ws \<le> s + st")
    case True
    have "drop ol w0 = drop (s + ol) ws" using True by (simp add: d0)
    then show ?thesis
      using True stepeq sp0 by (intro exI[of _ "[c0]"]) (simp add: w0_def c_def ol_def)
  next
    case False
    then have lt: "length ws - (s + st) < length ws - s" and s': "s + st < length ws"
      using cst less.prems by auto
    from less.hyps[OF lt s', of "acc @ [c0]"] obtain cks where
      run: "chunk_loop ws cs ov (int (s + st)) (acc @ [c0]) = Some ((acc @ [c0]) @ cks)"
      and ne: "cks \<noteq> []"
      and hd: "py_split (hd cks) = take c (drop (s + st) ws)"
      and chain: "\<forall>i. Suc i < length cks \<longrightarrow>
         drop st (py_split (cks ! i)) = take ol (py_split (cks ! Suc i))"
      and cat: "concat (map (\<lambda>ck. drop ol (py_split ck)) cks) = drop (s + st + ol) ws"
      unfolding c_def ol_def st_def by blast
    have first: "drop st (py_split c0) = take ol (py_split (hd cks))"
      by (simp add: sp0 hd w0_def cst drop_take add.commute min_def)
    have chain': "\<forall>i. Suc i < length (c0 # cks) \<longrightarrow>
         drop st (py_split ((c0 # cks) ! i)) = take ol (py_split ((c0 # cks) ! Suc i))"
    proof (intro allI impI)
      fix i assume i: "Suc i < length (c0 # cks)"
      show "drop st (py_split ((c0 # cks) ! i)) = take ol (py_split ((c0 # cks) ! Suc i))"
      proof (cases i)
        case 0
        then show ?thesis using first ne by (simp add: hd_conv_nth)
      next
        case (Suc j)
        then show ?thesis using chain i by simp
      qed
    qed
    have cat': "concat (map (\<lambda>ck. drop ol (py_split ck)) (c0 # cks)) = drop (s + ol) ws"
    proof -
      have e: "drop (s + st + ol) ws = drop st (drop (s + ol) ws)"
        by (simp add: add.commute add.left_commute)
      show ?thesis by (simp add: sp0 d0 cat e del: drop_drop)
    qed
    show ?thesis
      using False stepeq run sp0 chain' cat'
      by (intro exI[of _ "c0 # cks"]) (simp add: w0_def c_def ol_def st_def)
  qed
qed


lemma chunk_text_returns:
  "overlap < chunk_size \<Longrightarrow> \<exists>chunks. chunk_text text chunk_size overlap = Some chunks"
  using chunk_loop_terminates[of overlap chunk_size "py_split text" 0 "[]"]
  by (simp add: chunk_text_def Let_def)


section \<open>Claims about \<open>chunk_text\<close>\<close>

text \<open>
  Claim C6. A text with at most \<open>chunk_size\<close> words comes back as exactly one chunk, the
  input text itself, whatever the overlap.
\<close>

theorem chunk_text_short_text:
  "int (length (py_split text)) \<le> chunk_size \<Longrightarrow>
   chunk_text text chunk_size overlap = Some [text]"
  by (simp add: chunk_text_def)

text \<open>Claim C6, at the default parameters on a three-word text.\<close>

theorem chunk_text_short_text_witness:
  "int (length (py_split ''fever and headache'')) \<le> 400 \<and>
   chunk_text ''fever and headache'' 400 50 = Some [''fever and headache'']"
proof -
  have h: "int (length (py_split ''fever and headache'')) \<le> 400"
    by (simp add: py_split_def is_space_def)
  show ?thesis using h chunk_text_short_text[OF h, of 50] by simp
qed

text \<open>
  Claim C3 says that a call with \<open>overlap \<ge> chunk_size\<close> is rejected with an
  invalid-argument error. The function has no such guard: on a text of three words with
  \<open>chunk_size = overlap = 3\<close> it returns the text as its single chunk.
\<close>

theorem chunk_text_unguarded_counterexample:
  "(3::int) \<le> 3 \<and> chunk_text ''fever and headache'' 3 3 = Some [''fever and headache'']"
  by (simp add: chunk_text_def py_split_def is_space_def)

text \<open>
  The same three words with \<open>chunk_size = overlap = 2\<close>: the start index never moves and
  the loop does not return.
\<close>

lemma chunk_text_diverges_example: "chunk_text ''fever and headache'' 2 2 = None"
  by (rule chunk_text_diverges) (simp_all add: py_split_def is_space_def)

text \<open>
  Claim C3, amended. \<open>chunk_text\<close> has no guard on the overlap: with
  \<open>overlap \<ge> chunk_size\<close> and a text of at most \<open>chunk_size\<close> words it returns the
  single chunk; and every call with \<open>overlap < chunk_size\<close> returns.
\<close>

theorem chunk_text_overlap_unguarded:
  "(chunk_size \<le> overlap \<and> int (length (py_split text)) \<le> chunk_size \<longrightarrow>
      chunk_text text chunk_size overlap = Some [text]) \<and>
   (overlap < chunk_size \<longrightarrow> (\<exists>chunks. chunk_text text chunk_size overlap = Some chunks))"
  using chunk_text_returns[of overlap chunk_size "text"]
  by (simp add: chunk_text_def Let_def)

text \<open>Claim C3, amended, at one input for each of its two cases.\<close>

theorem chunk_text_overlap_unguarded_witness:
  "chunk_text ''a b'' 3 3 = Some [''a b''] \<and> (\<exists>chunks. chunk_text ''a b c'' 2 1 = Some chunks)"
  using chunk_text_overlap_unguarded[of 3 3 "''a b''"]
        chunk_text_overlap_unguarded[of 2 1 "''a b c''"]
  by (simp add: py_split_def is_space_def)

text \<open>
  Claim C2 says that consecutive chunks always share exactly \<open>overlap\<close> words. The window
  keeps sliding until its start passes the last word, so a trailing chunk can be shorter than
  the overlap: four words with \<open>chunk_size = 3\<close> and \<open>overlap = 2\<close> end in the chunks
  \<open>c d\<close> and \<open>d\<close>, which cannot share two words.
\<close>

theorem chunk_text_short_tail_counterexample:
  "3 < int (length (py_split ''a b c d'')) \<and>
   chunk_text ''a b c d'' 3 2 = Some [''a b c'', ''b c d'', ''c d'', ''d''] \<and>
   \<not> shared_at_boundary 2 ''c d'' ''d''"
  by (simp add: chunk_text_def py_split_def is_space_def chunk_loop.simps py_slice_def
      adjust_index_def Let_def shared_at_boundary_def)

text \<open>
  From "the earlier window without its first \<open>st\<close> words is the first \<open>ol\<close> words of the
  later one" to the number of words shared at the boundary.
\<close>

lemma boundary_from_window:
  assumes "drop st w1 = take ol w2"
  shows "min ol (length w2) \<le> length w1 \<and>
         drop (length w1 - min ol (length w2)) w1 = take (min ol (length w2)) w2"
proof -
  have len: "length w1 - st = min ol (length w2)"
    using arg_cong[OF assms, of length] by (simp add: min.commute)
  have t: "take ol w2 = take (min ol (length w2)) w2" by (simp add: min_def)
  show ?thesis
  proof (cases "st \<le> length w1")
    case True
    then have "length w1 - min ol (length w2) = st" using len by linarith
    then show ?thesis using assms t len by (metis diff_le_self)
  next
    case False
    then have "min ol (length w2) = 0" using len by simp
    then show ?thesis by simp
  qed
qed

text \<open>
  Claim C2, amended. For a text of more than \<open>chunk_size\<close> words and
  \<open>0 \<le> overlap < chunk_size\<close>, \<open>chunk_text\<close> returns chunks of which any two
  consecutive ones share exactly \<open>min overlap n\<close> words at their boundary, \<open>n\<close> being the
  word count of the later chunk (so exactly \<open>overlap\<close> words whenever the later chunk has
  that many); and the first chunk followed by every later chunk without its leading
  \<open>overlap\<close> words is the word sequence of the text.
\<close>

theorem chunk_text_overlap_structure:
  assumes long: "chunk_size < int (length (py_split text))"
    and ov: "0 \<le> overlap" "overlap < chunk_size"
  shows "\<exists>chunks. chunk_text text chunk_size overlap = Some chunks \<and>
     (\<forall>i. Suc i < length chunks \<longrightarrow>
        shared_at_boundary (min (nat overlap) (length (py_split (chunks ! Suc i))))
          (chunks ! i) (chunks ! Suc i)) \<and>
     concat (py_split (hd chunks) # map (\<lambda>c. drop (nat overlap) (py_split c)) (tl chunks))
       = py_split text"
proof -
  define ws where "ws = py_split text"
  have wl: "list_all word_like ws" by (simp add: ws_def py_split_word_like)
  have pos: "0 < length ws" using long ov unfolding ws_def by (cases "py_split text") auto
  from chunk_loop_windows[OF ov wl pos, of "[]"] obtain cks where
    run: "chunk_loop ws chunk_size overlap 0 [] = Some cks"
    and ne: "cks \<noteq> []"
    and hd: "py_split (hd cks) = take (nat chunk_size) ws"
    and chain: "\<forall>i. Suc i < length cks \<longrightarrow>
       drop (nat (chunk_size - overlap)) (py_split (cks ! i)) =
       take (nat overlap) (py_split (cks ! Suc i))"
    and cat: "concat (map (\<lambda>ck. drop (nat overlap) (py_split ck)) cks) = drop (nat overlap) ws"
    by auto
  have res: "chunk_text text chunk_size overlap = Some cks"
    using long run by (simp add: chunk_text_def ws_def Let_def)
  have bound: "\<forall>i. Suc i < length cks \<longrightarrow>
        shared_at_boundary (min (nat overlap) (length (py_split (cks ! Suc i))))
          (cks ! i) (cks ! Suc i)"
  proof (intro allI impI)
    fix i assume "Suc i < length cks"
    with chain have "drop (nat (chunk_size - overlap)) (py_split (cks ! i)) =
       take (nat overlap) (py_split (cks ! Suc i))" by blast
    from boundary_from_window[OF this]
    show "shared_at_boundary (min (nat overlap) (length (py_split (cks ! Suc i))))
          (cks ! i) (cks ! Suc i)"
      by (simp add: shared_at_boundary_def Let_def)
  qed
  obtain c0 rest where cks: "cks = c0 # rest" using ne by (cases cks) auto
  have "concat (py_split (hd cks) # map (\<lambda>c. drop (nat overlap) (py_split c)) (tl cks))
        = take (nat overlap) (py_split c0) @
          concat (map (\<lambda>ck. drop (nat overlap) (py_split ck)) cks)"
    by (simp add: cks)
  also have "\<dots> = take (nat overlap) ws @ drop (nat overlap) ws"
  proof -
    have "py_split c0 = take (nat chunk_size) ws" using hd cks by simp
    then have "take (nat overlap) (py_split c0) = take (nat overlap) ws"
      using ov by (simp add: min_def)
    then show ?thesis by (simp only: cat)
  qed
  finally have "concat (py_split (hd cks) # map (\<lambda>c. drop (nat overlap) (py_split c)) (tl cks))
        = py_split text" by (simp add: ws_def)
  with res bound show ?thesis by blast
qed

text \<open>Claim C2, amended, on five words with \<open>chunk_size = 4\<close> and \<open>overlap = 2\<close>.\<close>

theorem chunk_text_overlap_structure_witness:
  "4 < int (length (py_split ''a b c d e'')) \<and> (0::int) \<le> 2 \<and> (2::int) < 4 \<and>
   chunk_text ''a b c d e'' 4 2 = Some [''a b c d'', ''c d e'', ''e''] \<and>
   shared_at_boundary 2 ''a b c d'' ''c d e'' \<and>
   shared_at_boundary 1 ''c d e'' ''e'' \<and>
   concat [py_split ''a b c d'', drop 2 (py_split ''c d e''), drop 2 (py_split ''e'')]
     = py_split ''a b c d e''"
proof -
  have h: "4 < int (length (py_split ''a b c d e''))" by (simp add: py_split_def is_space_def)
  have run: "chunk_text ''a b c d e'' 4 2 = Some [''a b c d'', ''c d e'', ''e'']"
    by (simp add: chunk_text_def py_split_def is_space_def chunk_loop.simps py_slice_def
        adjust_index_def Let_def)
  from chunk_text_overlap_structure[OF h, of 2] obtain chunks where
    c: "chunk_text ''a b c d e'' 4 2 = Some chunks"
    and b: "\<forall>i. Suc i < length chunks \<longrightarrow>
        shared_at_boundary (min (nat 2) (length (py_split (chunks ! Suc i))))
          (chunks ! i) (chunks ! Suc i)"
    and r: "concat (py_split (hd chunks) # map (\<lambda>c. drop (nat 2) (py_split c)) (tl chunks))
       = py_split ''a b c d e''"
    by auto
  have eq: "chunks = [''a b c d'', ''c d e'', ''e'']" using c run by simp
  have l1: "length (py_split ''c d e'') = 3" and l2: "length (py_split ''e'') = 1"
    by (simp_all add: py_split_def is_space_def)
  have b0: "shared_at_boundary 2 ''a b c d'' ''c d e''"
    using b[rule_format, of 0] by (simp add: eq l1)
  have b1: "shared_at_boundary 1 ''c d e'' ''e''"
    using b[rule_format, of 1] by (simp add: eq l2)
  show ?thesis using h run b0 b1 r by (simp add: eq)
qed


section \<open>Claims about \<open>create_chunks_from_csv\<close>\<close>

text \<open>
  Claim C4 says that a blank \<open>summary\<close> is treated as the empty string, as a blank
  \<open>also_called\<close> is. Only \<open>also_called\<close> is tested with \<open>pd.notna\<close>; a row whose summary is
  blank reaches \<open>full_text += summary\<close> with NaN and the call raises \<open>TypeError\<close>.
\<close>

theorem create_chunks_blank_summary:
  "create_chunks_from_csv
     [\<lparr>row_id = (1::int), row_title = Some ''Influenza'', row_also_called = Some ''Flu'',
       row_summary = None, row_url = Some ''https://medlineplus.gov/flu.html''\<rparr>]
   = Some (Inl TypeError)"
  by (simp add: create_chunks_from_csv_def row_full_text_def)

text \<open>
  The part of claim C4 that the code does: a blank \<open>also_called\<close> contributes nothing, a
  non-blank one contributes the "Also known as" sentence.
\<close>

lemma row_full_text_blank_also_called:
  "row_also_called row = None \<Longrightarrow> row_summary row = Some body \<Longrightarrow>
   row_full_text row = Inr (py_str (row_title row) @ ''. '' @ body)"
  by (simp add: row_full_text_def)

lemma row_full_text_also_called:
  "row_also_called row = Some a \<Longrightarrow> a \<noteq> [] \<Longrightarrow> row_summary row = Some body \<Longrightarrow>
   row_full_text row =
     Inr (py_str (row_title row) @ ''. '' @ ''Also known as: '' @ a @ ''. '' @ body)"
  by (simp add: row_full_text_def)

text \<open>The inner loop in closed form: one table row per chunk, numbered upwards from \<open>k\<close>.\<close>

lemma append_chunks_table:
  "append_chunks row chunks acc k =
     (acc @ map (\<lambda>(j, chunk). \<lparr>col_chunk_id = k + int j, col_title = row_title row,
                        col_chunk_text = chunk, col_source_id = row_id row,
                        col_url = row_url row\<rparr>) (zip [0..<length chunks] chunks),
      k + int (length chunks))"
proof (induction chunks arbitrary: acc k)
  case Nil
  then show ?case by simp
next
  case (Cons c cs)
  have "zip [0..<length (c # cs)] (c # cs) = (0, c) # zip (map Suc [0..<length cs]) cs"
    by (simp add: upt_conv_Cons map_Suc_upt del: upt_Suc)
  then show ?case
    by (simp add: Cons.IH zip_map1 case_prod_unfold o_def add.assoc del: upt_Suc)
qed


lemma upt_shift_append:
  "map int [0..<a] @ map (\<lambda>j. int a + int j) [0..<n] = map int [0..<a + n]"
proof -
  have "map (\<lambda>j. int a + int j) [0..<n] = map int (map (\<lambda>j. j + a) [0..<n])"
    by (simp add: o_def add.commute)
  also have "\<dots> = map int [a..<a + n]" by (simp add: map_add_upt add.commute)
  finally show ?thesis by (simp add: upt_add_eq_append[of 0 a n, simplified] del: map_map)
qed

lemma rows_loop_table:
  "rows_loop rows acc k = Some (Inr out) \<Longrightarrow> k = int (length acc) \<Longrightarrow>
   map col_chunk_id acc = map int [0..<length acc] \<Longrightarrow>
   map col_chunk_id out = map int [0..<length out] \<and>
   map (\<lambda>c. (col_source_id c, col_chunk_text c)) out =
     map (\<lambda>c. (col_source_id c, col_chunk_text c)) acc @
     concat (map (\<lambda>row. map (Pair (row_id row)) (row_chunks row)) rows)"
proof (induction rows arbitrary: acc k)
  case Nil
  then show ?case by simp
next
  case (Cons row rows)
  from Cons.prems(1) obtain full_text where ft: "row_full_text row = Inr full_text"
    by (cases "row_full_text row") auto
  from Cons.prems(1) ft obtain cks where ck: "chunk_text full_text 400 50 = Some cks"
    by (cases "chunk_text full_text 400 50") auto
  define mk where "mk = (\<lambda>(j, chunk). \<lparr>col_chunk_id = k + int j, col_title = row_title row,
                        col_chunk_text = chunk, col_source_id = row_id row,
                        col_url = row_url row\<rparr>)"
  define acc' where "acc' = acc @ map mk (zip [0..<length cks] cks)"
  have ap: "append_chunks row cks acc k = (acc', k + int (length cks))"
    by (simp add: append_chunks_table acc'_def mk_def)
  have run: "rows_loop rows acc' (k + int (length cks)) = Some (Inr out)"
    using Cons.prems(1) by (simp add: ft ck ap)
  have len: "k + int (length cks) = int (length acc')"
    using Cons.prems(2) by (simp add: acc'_def)
  have idz: "map col_chunk_id (map mk (zip [0..<length cks] cks)) =
             map (\<lambda>j. k + int j) [0..<length cks]"
  proof -
    have "map col_chunk_id (map mk (zip [0..<length cks] cks)) =
          map ((\<lambda>j. k + int j) \<circ> fst) (zip [0..<length cks] cks)"
      by (simp add: mk_def case_prod_unfold o_def)
    also have "\<dots> = map (\<lambda>j. k + int j) (map fst (zip [0..<length cks] cks))"
      by (simp only: map_map)
    finally show ?thesis by simp
  qed
  have ids: "map col_chunk_id acc' = map int [0..<length acc']"
    using Cons.prems(2,3) upt_shift_append[of "length acc" "length cks"]
    by (simp add: acc'_def idz del: map_map)
  have txz: "map (\<lambda>c. (col_source_id c, col_chunk_text c)) (map mk (zip [0..<length cks] cks)) =
             map (Pair (row_id row)) cks"
  proof -
    have "map (\<lambda>c. (col_source_id c, col_chunk_text c)) (map mk (zip [0..<length cks] cks)) =
          map (Pair (row_id row) \<circ> snd) (zip [0..<length cks] cks)"
      by (simp add: mk_def case_prod_unfold o_def)
    also have "\<dots> = map (Pair (row_id row)) (map snd (zip [0..<length cks] cks))"
      by (simp only: map_map)
    finally show ?thesis by simp
  qed
  have tx: "map (\<lambda>c. (col_source_id c, col_chunk_text c)) acc' =
            map (\<lambda>c. (col_source_id c, col_chunk_text c)) acc @ map (Pair (row_id row)) cks"
    by (simp add: acc'_def txz del: map_map)
  have rc: "row_chunks row = cks" by (simp add: row_chunks_def ft ck)
  from Cons.IH[OF run len ids] show ?case by (simp add: tx rc)
qed

lemma rows_loop_returns:
  "\<forall>row\<in>set rows. row_summary row \<noteq> None \<Longrightarrow> \<exists>out. rows_loop rows acc k = Some (Inr out)"
proof (induction rows arbitrary: acc k)
  case Nil
  then show ?case by simp
next
  case (Cons row rows)
  then obtain body where b: "row_summary row = Some body" by auto
  then obtain full_text where ft: "row_full_text row = Inr full_text"
    by (simp add: row_full_text_def Let_def)
  obtain cks where ck: "chunk_text full_text 400 50 = Some cks"
    using chunk_text_returns[of 50 400 full_text] by auto
  obtain acc' k' where ap: "append_chunks row cks acc k = (acc', k')"
    by (cases "append_chunks row cks acc k") auto
  from Cons.IH[of acc' k'] Cons.prems obtain out where "rows_loop rows acc' k' = Some (Inr out)"
    by auto
  then show ?case by (simp add: ft ck ap)
qed

text \<open>
  Claim C5. Whenever \<open>create_chunks_from_csv\<close> returns a chunk table, the \<open>chunk_id\<close>
  column is \<open>0, 1, \<dots>, n - 1\<close> (each id is the row position), and the rows are the chunks
  of the documents in corpus order; and it does return a table for every non-empty corpus
  whose summaries are all present.
\<close>

theorem create_chunks_dense_ids:
  "(create_chunks_from_csv df = Some (Inr all_chunks) \<longrightarrow>
      map col_chunk_id all_chunks = map int [0..<length all_chunks] \<and>
      map (\<lambda>c. (col_source_id c, col_chunk_text c)) all_chunks =
        concat (map (\<lambda>row. map (Pair (row_id row)) (row_chunks row)) df)) \<and>
   (df \<noteq> [] \<and> (\<forall>row\<in>set df. row_summary row \<noteq> None) \<longrightarrow>
      (\<exists>tbl. create_chunks_from_csv df = Some (Inr tbl)))"
proof (intro conjI impI)
  assume r: "create_chunks_from_csv df = Some (Inr all_chunks)"
  then have run: "rows_loop df [] 0 = Some (Inr all_chunks)"
    by (auto simp: create_chunks_from_csv_def split: option.splits sum.splits if_splits)
  from rows_loop_table[OF run]
  show "map col_chunk_id all_chunks = map int [0..<length all_chunks]"
    and "map (\<lambda>c. (col_source_id c, col_chunk_text c)) all_chunks =
        concat (map (\<lambda>row. map (Pair (row_id row)) (row_chunks row)) df)"
    by simp_all
next
  assume a: "df \<noteq> [] \<and> (\<forall>row\<in>set df. row_summary row \<noteq> None)"
  then obtain out where "rows_loop df [] 0 = Some (Inr out)"
    using rows_loop_returns[of df "[]" 0] by auto
  with a show "\<exists>tbl. create_chunks_from_csv df = Some (Inr tbl)"
    by (simp add: create_chunks_from_csv_def)
qed

text \<open>On an empty corpus the average in the last \<open>print\<close> divides by zero.\<close>

lemma create_chunks_empty_corpus:
  "create_chunks_from_csv ([] :: 'i csv_row list) = Some (Inl ZeroDivisionError)"
  by (simp add: create_chunks_from_csv_def)

text \<open>Claim C5 on a corpus of two documents.\<close>

theorem create_chunks_dense_ids_witness:
  "\<exists>tbl. create_chunks_from_csv
       [\<lparr>row_id = (7::int), row_title = Some ''Influenza'', row_also_called = Some ''Flu'',
         row_summary = Some ''Fever and cough'', row_url = Some ''u1''\<rparr>,
        \<lparr>row_id = 9, row_title = Some ''Asthma'', row_also_called = None,
         row_summary = Some ''Wheezing'', row_url = Some ''u2''\<rparr>] = Some (Inr tbl) \<and>
     map col_chunk_id tbl = [0, 1] \<and>
     map (\<lambda>c. (col_source_id c, col_chunk_text c)) tbl =
       [(7, ''Influenza. Also known as: Flu. Fever and cough''), (9, ''Asthma. Wheezing'')]"
proof -
  let ?df = "[\<lparr>row_id = (7::int), row_title = Some ''Influenza'', row_also_called = Some ''Flu'',
         row_summary = Some ''Fever and cough'', row_url = Some ''u1''\<rparr>,
        \<lparr>row_id = 9, row_title = Some ''Asthma'', row_also_called = None,
         row_summary = Some ''Wheezing'', row_url = Some ''u2''\<rparr>]"
  obtain tbl where t: "create_chunks_from_csv ?df = Some (Inr tbl)"
    using create_chunks_dense_ids[of ?df] by auto
  have ids: "map col_chunk_id tbl = map int [0..<length tbl]"
    and ord: "map (\<lambda>c. (col_source_id c, col_chunk_text c)) tbl =
        concat (map (\<lambda>row. map (Pair (row_id row)) (row_chunks row)) ?df)"
    using create_chunks_dense_ids[of ?df tbl] t by blast+
  have rc: "concat (map (\<lambda>row. map (Pair (row_id row)) (row_chunks row)) ?df) =
       [(7, ''Influenza. Also known as: Flu. Fever and cough''), (9, ''Asthma. Wheezing'')]"
    by (simp add: row_chunks_def row_full_text_def py_str_def chunk_text_def py_split_def
        is_space_def)
  have "length tbl = 2" using arg_cong[OF ord, of length] by (simp only: rc length_map) simp
  then have "map col_chunk_id tbl = [0, 1]" using ids by (simp add: upt_rec numeral_2_eq_2)
  with t ord rc show ?thesis by (intro exI[of _ tbl]) simp
qed


section \<open>Claims about the retriever\<close>

lemma context_parts_loop_map:
  "context_parts_loop results parts = parts @ map spec_context_block results"
  by (induction results arbitrary: parts) (simp_all add: spec_context_block_def)

text \<open>The loop and the join as one expression over the blocks of the specification.\<close>

lemma format_context_join_map:
  "format_context results = py_join ''\<newline>---\<newline>'' (map spec_context_block results)"
  by (simp add: format_context_def context_parts_loop_map)

text \<open>
  Claim C9. \<open>format_context\<close> of no result is the empty string; of one result it is the
  block of that result, the label line with the title, the text and a line break; of more
  results it is the block of the first, the separator line, and \<open>format_context\<close> of the
  rest. So there is one block per result, in the order of the results, joined by the
  separator line, and nothing is removed: a title that occurs in several results is printed in
  several blocks.
\<close>

theorem format_context_blocks:
  "format_context ([] :: 'd retrieval_result list) = [] \<and>
   format_context [r] =
     ''[Source: '' @ (case res_title r of None \<Rightarrow> ''nan'' | Some t \<Rightarrow> t) @ '']\<newline>'' @
     res_text r @ ''\<newline>'' \<and>
   format_context (r # r' # rs) =
     ''[Source: '' @ (case res_title r of None \<Rightarrow> ''nan'' | Some t \<Rightarrow> t) @ '']\<newline>'' @
     res_text r @ ''\<newline>'' @ ''\<newline>---\<newline>'' @ format_context (r' # rs)"
  by (simp add: format_context_def context_parts_loop_map spec_context_block_def py_str_def)

text \<open>
  Claim C9 on two chunks of one document: the string that is returned, with the title in
  both blocks.
\<close>

theorem format_context_blocks_witness:
  "format_context
     [\<lparr>res_rank = 1, res_score = (1::int), res_title = Some ''Influenza'',
       res_text = ''Influenza. Fever'', res_url = Some ''u1'', res_chunk_id = 0\<rparr>,
      \<lparr>res_rank = 2, res_score = 4, res_title = Some ''Influenza'',
       res_text = ''Influenza. Cough'', res_url = Some ''u1'', res_chunk_id = 1\<rparr>]
   = ''[Source: Influenza]\<newline>Influenza. Fever\<newline>\<newline>---\<newline>[Source: Influenza]\<newline>Influenza. Cough\<newline>''"
  by (simp add: format_context_blocks)

text \<open>The same result twice gives its block twice.\<close>

lemma format_context_repeated_title:
  "format_context [r, r] = spec_context_block r @ ''\<newline>---\<newline>'' @ spec_context_block r"
  by (simp add: format_context_def context_parts_loop_map)

text \<open>
  The loop of \<open>retrieve\<close> in closed form, when every position addresses a row of the table.
\<close>

lemma results_loop_valid:
  "\<forall>hit\<in>set hits. 0 \<le> snd hit \<and> snd hit < int (length df) \<Longrightarrow>
   results_loop df hits i acc =
     Inr (acc @ map (\<lambda>(j, hit). hit_result df (i + int j + 1) hit) (zip [0..<length hits] hits))"
proof (induction hits arbitrary: i acc)
  case Nil
  then show ?case by simp
next
  case (Cons h hs)
  obtain dist idx where h: "h = (dist, idx)" by (cases h)
  have v: "0 \<le> idx \<and> idx < int (length df)" using Cons.prems h by simp
  have z: "zip [0..<length (h # hs)] (h # hs) = (0, h) # zip (map Suc [0..<length hs]) hs"
    by (simp add: upt_conv_Cons map_Suc_upt del: upt_Suc)
  have step: "results_loop df (h # hs) i acc =
              results_loop df hs (i + 1) (acc @ [hit_result df (i + 1) h])"
    using v by (simp add: h iloc_def hit_result_def)
  have ih: "results_loop df hs (i + 1) (acc @ [hit_result df (i + 1) h]) =
        Inr ((acc @ [hit_result df (i + 1) h]) @
             map (\<lambda>(j, hit). hit_result df (i + 1 + int j + 1) hit) (zip [0..<length hs] hs))"
    using Cons.prems by (intro Cons.IH) simp
  have "map (\<lambda>(j, hit). hit_result df (i + int j + 1) hit) (zip [0..<length (h # hs)] (h # hs)) =
        hit_result df (i + 1) h #
        map (\<lambda>(j, hit). hit_result df (i + 1 + int j + 1) hit) (zip [0..<length hs] hs)"
    by (simp only: z) (simp add: zip_map1 case_prod_unfold o_def add.assoc add.commute
        add.left_commute)
  with step ih show ?case by simp
qed

text \<open>
  Claim C1 says that \<open>retrieve\<close> returns at most \<open>min k chunkCount\<close> results.
  \<open>retrieve\<close> does not look at the size of the table or of the index: it turns every pair
  that the search returned into a result. A FAISS flat index answers a request for \<open>k\<close>
  neighbours with exactly \<open>k\<close> pairs, the missing ones padded with the label \<open>-1\<close> and
  the largest float; \<open>iloc[-1]\<close> is the last row. With one chunk and \<open>k = 2\<close> the call
  returns two results.
\<close>

theorem retrieve_padded_counterexample:
  "retrieve
     \<lparr>model_encode = (\<lambda>query. Inr ()),
      index_search = (\<lambda>emb k. Inr ([0, 340282346638528859811704183484516925440], [0, - 1])),
      chunks_df = [\<lparr>col_chunk_id = 0, col_title = Some ''Influenza'',
                    col_chunk_text = ''Influenza. Fever and cough'', col_source_id = (7::int),
                    col_url = Some ''u1''\<rparr>]\<rparr>
     ''fever'' 2
   = Inr [\<lparr>res_rank = 1, res_score = (0::int), res_title = Some ''Influenza'',
           res_text = ''Influenza. Fever and cough'', res_url = Some ''u1'', res_chunk_id = 0\<rparr>,
          \<lparr>res_rank = 2, res_score = 340282346638528859811704183484516925440,
           res_title = Some ''Influenza'', res_text = ''Influenza. Fever and cough'',
           res_url = Some ''u1'', res_chunk_id = 0\<rparr>] \<and>
   \<not> (2::nat) \<le> min 2 1"
  by (simp add: retrieve_def iloc_def)

text \<open>
  The same padding on an empty index: \<open>iloc[-1]\<close> on the empty table raises
  \<open>IndexError\<close>, so the call does not return an empty list.
\<close>

lemma retrieve_empty_index_raises:
  "retrieve
     \<lparr>model_encode = (\<lambda>query. Inr ()),
      index_search = (\<lambda>emb k. Inr (replicate (nat k) (340282346638528859811704183484516925440::int),
                                     replicate (nat k) (- 1))),
      chunks_df = ([] :: int chunk_row list)\<rparr>
     ''fever'' 3
   = Inl IndexError"
  by (simp add: retrieve_def iloc_def numeral_3_eq_3)

text \<open>
  Claim C1, amended. \<open>retrieve\<close> checks neither \<open>k\<close> nor the size of the index: an
  exception of the index search is passed on unchanged; and when the search returns hits whose
  positions all address rows of the chunk table, \<open>retrieve\<close> returns exactly one result
  per hit, in the order of the search, with ranks 1, 2, \<open>\<dots>\<close>, each carrying the distance
  of its hit and the chunk at its position. Its result is therefore empty when the search
  returns no hit, and has at most \<open>min k chunkCount\<close> entries when the search returns at
  most that many.
\<close>

theorem retrieve_one_result_per_hit:
  assumes "model_encode self query = Inr emb"
  shows "(index_search self emb top_k = Inl e \<longrightarrow> retrieve self query top_k = Inl e) \<and>
     (index_search self emb top_k = Inr (distances, indices) \<and>
      (\<forall>idx\<in>set indices. 0 \<le> idx \<and> idx < int (length (chunks_df self))) \<longrightarrow>
        (\<exists>results. retrieve self query top_k = Inr results \<and>
           length results = min (length distances) (length indices) \<and>
           (\<forall>i<length results.
              results ! i = hit_result (chunks_df self) (int i + 1) (distances ! i, indices ! i))))"
proof (intro conjI impI)
  assume "index_search self emb top_k = Inl e"
  with assms show "retrieve self query top_k = Inl e" by (simp add: retrieve_def)
next
  assume a: "index_search self emb top_k = Inr (distances, indices) \<and>
      (\<forall>idx\<in>set indices. 0 \<le> idx \<and> idx < int (length (chunks_df self)))"
  let ?hits = "zip distances indices"
  let ?res = "map (\<lambda>(j, hit). hit_result (chunks_df self) (0 + int j + 1) hit)
                (zip [0..<length ?hits] ?hits)"
  have v: "\<forall>hit\<in>set ?hits. 0 \<le> snd hit \<and> snd hit < int (length (chunks_df self))"
    using a by (auto dest: set_zip_rightD)
  have r: "retrieve self query top_k = Inr ?res"
    using assms a results_loop_valid[OF v, of 0 "[]"] by (simp add: retrieve_def)
  have l: "length ?res = min (length distances) (length indices)" by simp
  have n: "\<forall>i<length ?res.
              ?res ! i = hit_result (chunks_df self) (int i + 1) (distances ! i, indices ! i)"
    by simp
  from r l n show "\<exists>results. retrieve self query top_k = Inr results \<and>
           length results = min (length distances) (length indices) \<and>
           (\<forall>i<length results.
              results ! i = hit_result (chunks_df self) (int i + 1) (distances ! i, indices ! i))"
    by blast
qed

text \<open>
  Claim C1, amended, on an index whose search rejects \<open>k \<le> 0\<close> and returns two hits
  otherwise.
\<close>

theorem retrieve_one_result_per_hit_witness:
  "retrieve
       \<lparr>model_encode = (\<lambda>query. Inr ()),
        index_search = (\<lambda>emb k. if k \<le> 0 then Inl (LibraryError ''AssertionError'')
                                  else Inr ([1::int, 4], [1, 0])),
        chunks_df = [\<lparr>col_chunk_id = 0, col_title = Some ''Influenza'',
                      col_chunk_text = ''Influenza. Fever'', col_source_id = (7::int),
                      col_url = Some ''u1''\<rparr>,
                     \<lparr>col_chunk_id = 1, col_title = Some ''Asthma'',
                      col_chunk_text = ''Asthma. Wheezing'', col_source_id = 9,
                      col_url = Some ''u2''\<rparr>]\<rparr>
       ''fever'' 0 = Inl (LibraryError ''AssertionError'') \<and>
   (\<exists>results.
      retrieve
       \<lparr>model_encode = (\<lambda>query. Inr ()),
        index_search = (\<lambda>emb k. if k \<le> 0 then Inl (LibraryError ''AssertionError'')
                                  else Inr ([1::int, 4], [1, 0])),
        chunks_df = [\<lparr>col_chunk_id = 0, col_title = Some ''Influenza'',
                      col_chunk_text = ''Influenza. Fever'', col_source_id = (7::int),
                      col_url = Some ''u1''\<rparr>,
                     \<lparr>col_chunk_id = 1, col_title = Some ''Asthma'',
                      col_chunk_text = ''Asthma. Wheezing'', col_source_id = 9,
                      col_url = Some ''u2''\<rparr>]\<rparr>
       ''fever'' 2 = Inr results \<and>
      length results = 2 \<and> map res_rank results = [1, 2] \<and>
      map res_score results = [1::int, 4] \<and> map res_chunk_id results = [1, 0])"
proof -
  let ?R = "\<lparr>model_encode = (\<lambda>query. Inr ()),
        index_search = (\<lambda>emb k. if k \<le> 0 then Inl (LibraryError ''AssertionError'')
                                  else Inr ([1::int, 4], [1, 0])),
        chunks_df = [\<lparr>col_chunk_id = 0, col_title = Some ''Influenza'',
                      col_chunk_text = ''Influenza. Fever'', col_source_id = (7::int),
                      col_url = Some ''u1''\<rparr>,
                     \<lparr>col_chunk_id = 1, col_title = Some ''Asthma'',
                      col_chunk_text = ''Asthma. Wheezing'', col_source_id = 9,
                      col_url = Some ''u2''\<rparr>]\<rparr>"
  have e: "model_encode ?R ''fever'' = Inr ()" by simp
  have a: "retrieve ?R ''fever'' 0 = Inl (LibraryError ''AssertionError'')"
    using retrieve_one_result_per_hit[OF e, of 0 "LibraryError ''AssertionError''"] by simp
  obtain results where r: "retrieve ?R ''fever'' 2 = Inr results"
    and l: "length results = min (length [1::int, 4]) (length [1::int, 0])"
    and n: "\<forall>i<length results.
              results ! i = hit_result (chunks_df ?R) (int i + 1) ([1::int, 4] ! i, [1::int, 0] ! i)"
  proof -
    have h: "index_search ?R () 2 = Inr ([1::int, 4], [1, 0]) \<and>
             (\<forall>idx\<in>set [1, 0]. 0 \<le> idx \<and> idx < int (length (chunks_df ?R)))"
      by simp
    from retrieve_one_result_per_hit[OF e, of 2 _ "[1, 4]" "[1, 0]"] h that
    show ?thesis by blast
  qed
  from l have l2: "length results = 2" by simp
  then obtain x y where xy: "results = [x, y]"
    by (cases results; cases "tl results") auto
  from n l2 have "results ! 0 = hit_result (chunks_df ?R) 1 (1, 1)"
    and "results ! 1 = hit_result (chunks_df ?R) 2 (4, 0)"
    by (auto simp: numeral_2_eq_2)
  then have m: "map res_rank results = [1, 2]" "map res_score results = [1, 4]"
    "map res_chunk_id results = [1, 0]"
    by (simp_all add: xy hit_result_def)
  show ?thesis
  proof (rule conjI)
    show "retrieve ?R ''fever'' 0 = Inl (LibraryError ''AssertionError'')" by (rule a)
    show "\<exists>results. retrieve ?R ''fever'' 2 = Inr results \<and> length results = 2 \<and>
            map res_rank results = [1, 2] \<and> map res_score results = [1::int, 4] \<and>
            map res_chunk_id results = [1, 0]"
      using r l2 m by (intro exI[of _ results] conjI)
  qed
qed


section \<open>Claims about the conversation manager\<close>

text \<open>A call of \<open>generate_diagnosis\<close> that returns made one retrieval and one generation.\<close>

lemma generate_diagnosis_trace:
  "generate_diagnosis pipeline user_symptoms trace = (Inr result, trace') \<Longrightarrow>
   \<exists>prompt. trace' = trace @ [Retrieval user_symptoms 3, Generation prompt]"
  by (auto simp: generate_diagnosis_def Let_def split: sum.splits)

text \<open>Whether it returns or raises, it made one retrieval and at most one generation.\<close>

lemma generate_diagnosis_at_most_one_cycle:
  "snd (generate_diagnosis pipeline user_symptoms trace) = trace @ [Retrieval user_symptoms 3] \<or>
   (\<exists>prompt. snd (generate_diagnosis pipeline user_symptoms trace) =
      trace @ [Retrieval user_symptoms 3, Generation prompt])"
  by (auto simp: generate_diagnosis_def Let_def split: sum.splits)

text \<open>One message in the complete stage.\<close>

lemma process_message_complete:
  "stage self = ''complete'' \<Longrightarrow>
   process_message pipeline user_input (self, trace) =
     (Inr (Some (Complete_response closing_notice)),
      self\<lparr>conversation_history :=
             conversation_history self @ [\<lparr>role = ''user'', content = user_input\<rparr>]\<rparr>,
      trace)"
  by (simp add: process_message_def add_user_message_def Let_def)

text \<open>Any number of messages in the complete stage.\<close>

lemma process_messages_complete:
  "stage self = ''complete'' \<Longrightarrow>
   \<exists>self'. process_messages pipeline inputs (self, trace) =
     (replicate (length inputs) (Inr (Some (Complete_response closing_notice))), self', trace) \<and>
     stage self' = ''complete'' \<and>
     conversation_history self' =
       conversation_history self @ map (\<lambda>u. \<lparr>role = ''user'', content = u\<rparr>) inputs"
proof (induction inputs arbitrary: self)
  case Nil
  then show ?case by simp
next
  case (Cons u us)
  let ?s1 = "self\<lparr>conversation_history :=
             conversation_history self @ [\<lparr>role = ''user'', content = u\<rparr>]\<rparr>"
  have "stage ?s1 = ''complete''" using Cons.prems by simp
  from Cons.IH[OF this] obtain self' where
    "process_messages pipeline us (?s1, trace) =
     (replicate (length us) (Inr (Some (Complete_response closing_notice))), self', trace)"
    "stage self' = ''complete''"
    "conversation_history self' =
       conversation_history ?s1 @ map (\<lambda>u. \<lparr>role = ''user'', content = u\<rparr>) us"
    by blast
  then show ?case
    using Cons.prems by (simp add: process_message_complete)
qed

text \<open>
  Claim C8 says that the first message of every fresh session moves the session to the
  complete stage. \<open>process_message\<close> sets the stage to \<open>diagnosis\<close> before it calls
  \<open>generate_diagnosis\<close> and catches nothing: where the chat client raises, the exception
  leaves the call after one retrieval and one generation, with the session in the stage
  \<open>diagnosis\<close>.
\<close>

theorem fresh_session_failed_cycle_counterexample:
  "process_message
     \<lparr>pipeline_retriever =
        \<lparr>model_encode = (\<lambda>query. Inr ()),
         index_search = (\<lambda>emb k. Inr ([1::int], [0])),
         chunks_df = [\<lparr>col_chunk_id = 0, col_title = Some ''Influenza'',
                       col_chunk_text = ''Influenza. Fever'', col_source_id = (7::int),
                       col_url = Some ''u1''\<rparr>]\<rparr>,
      client_chat = (\<lambda>prompt. Inl (LibraryError ''APIConnectionError'')),
      create_diagnosis_prompt = (\<lambda>history context. ''prompt'')\<rparr>
     ''fever'' (new_manager, [])
   = (Inl (LibraryError ''APIConnectionError''),
      \<lparr>conversation_history = [\<lparr>role = ''user'', content = ''fever''\<rparr>],
       stage = ''diagnosis''\<rparr>,
      [Retrieval ''fever'' 3, Generation ''prompt'']) \<and>
   stage \<lparr>conversation_history = [\<lparr>role = ''user'', content = ''fever''\<rparr>],
          stage = ''diagnosis''\<rparr> \<noteq> ''complete''"
  by (simp add: process_message_def new_manager_def add_user_message_def generate_diagnosis_def
      retrieve_def iloc_def Let_def)

text \<open>
  Claim C8, amended. In a fresh session, a first message whose retrieval-and-generation cycle
  returns is answered with the diagnosis, after exactly one retrieval and one generation, and
  leaves the session in the complete stage; every message after it is answered with the fixed
  closing notice, the session stays complete, and the trace of retrievals and generations
  does not grow.
\<close>

theorem fresh_session_single_cycle:
  assumes "generate_diagnosis pipeline first_input trace = (Inr result, trace')"
  shows "\<exists>self1 prompt.
     process_message pipeline first_input (new_manager, trace) =
       (Inr (Some (Diagnosis_response (diagnosis result) (sources result))), self1, trace') \<and>
     stage self1 = ''complete'' \<and>
     trace' = trace @ [Retrieval first_input 3, Generation prompt] \<and>
     (\<forall>inputs. \<exists>self2.
        process_messages pipeline inputs (self1, trace') =
          (replicate (length inputs) (Inr (Some (Complete_response closing_notice))),
           self2, trace') \<and>
        stage self2 = ''complete'')"
proof -
  let ?self1 = "\<lparr>conversation_history =
                   [\<lparr>role = ''user'', content = first_input\<rparr>,
                    \<lparr>role = ''assistant'', content = diagnosis result\<rparr>],
                 stage = ''complete''\<rparr>"
  have p: "process_message pipeline first_input (new_manager, trace) =
       (Inr (Some (Diagnosis_response (diagnosis result) (sources result))), ?self1, trace')"
    using assms
    by (simp add: process_message_def new_manager_def add_user_message_def
        add_assistant_message_def Let_def)
  obtain prompt where t: "trace' = trace @ [Retrieval first_input 3, Generation prompt]"
    using generate_diagnosis_trace[OF assms] by blast
  have s: "stage ?self1 = ''complete''" by simp
  have later: "\<forall>inputs. \<exists>self2.
        process_messages pipeline inputs (?self1, trace') =
          (replicate (length inputs) (Inr (Some (Complete_response closing_notice))),
           self2, trace') \<and>
        stage self2 = ''complete''"
    using process_messages_complete[OF s, of pipeline _ trace'] by blast
  from p t s later show ?thesis by blast
qed

text \<open>
  Where the cycle raises, the exception leaves \<open>process_message\<close> after the stage was set to
  \<open>diagnosis\<close>.
\<close>

lemma failed_cycle_leaves_session_stuck:
  assumes "generate_diagnosis pipeline first_input trace = (Inl e, trace')"
  shows "process_message pipeline first_input (new_manager, trace) =
       (Inl e, \<lparr>conversation_history = [\<lparr>role = ''user'', content = first_input\<rparr>],
                stage = ''diagnosis''\<rparr>, trace')"
  using assms
  by (simp add: process_message_def new_manager_def add_user_message_def Let_def)

text \<open>
  Claim C10. In the complete stage \<open>process_message\<close> appends the user message to the
  history and nothing else: no assistant message, the stage stays complete, the trace is
  unchanged. In every stage the new history is the old one followed by a suffix.
\<close>

theorem process_message_complete_frame:
  "(stage self = ''complete'' \<longrightarrow>
      process_message pipeline user_input (self, trace) =
        (Inr (Some (Complete_response closing_notice)),
         self\<lparr>conversation_history :=
                conversation_history self @ [\<lparr>role = ''user'', content = user_input\<rparr>]\<rparr>,
         trace)) \<and>
   (\<exists>suffix. conversation_history (fst (snd (process_message pipeline user_input (self, trace))))
        = conversation_history self @ suffix)"
proof (rule conjI)
  show "stage self = ''complete'' \<longrightarrow>
      process_message pipeline user_input (self, trace) =
        (Inr (Some (Complete_response closing_notice)),
         self\<lparr>conversation_history :=
                conversation_history self @ [\<lparr>role = ''user'', content = user_input\<rparr>]\<rparr>,
         trace)"
    by (simp add: process_message_complete)
  show "\<exists>suffix. conversation_history
          (fst (snd (process_message pipeline user_input (self, trace))))
        = conversation_history self @ suffix"
    by (cases "generate_diagnosis pipeline user_input trace";
        cases "fst (generate_diagnosis pipeline user_input trace)")
       (auto simp: process_message_def add_user_message_def add_assistant_message_def Let_def)
qed

text \<open>Claim C8, amended, on a pipeline with one chunk, for a first and a second message.\<close>

theorem fresh_session_single_cycle_witness:
  "\<exists>self1 self2 trace'.
     process_message
       \<lparr>pipeline_retriever =
          \<lparr>model_encode = (\<lambda>query. Inr ()),
           index_search = (\<lambda>emb k. Inr ([1::int], [0])),
           chunks_df = [\<lparr>col_chunk_id = 0, col_title = Some ''Influenza'',
                         col_chunk_text = ''Influenza. Fever'', col_source_id = (7::int),
                         col_url = Some ''u1''\<rparr>]\<rparr>,
        client_chat = (\<lambda>prompt. Inr '' Likely influenza. ''),
        create_diagnosis_prompt = (\<lambda>history context. context)\<rparr>
       ''fever'' (new_manager, []) =
       (Inr (Some (Diagnosis_response ''Likely influenza.''
                     [\<lparr>src_title = Some ''Influenza'', src_url = Some ''u1'',
                       src_relevance_score = 1\<rparr>])), self1, trace') \<and>
     stage self1 = ''complete'' \<and> length trace' = 2 \<and>
     process_messages
       \<lparr>pipeline_retriever =
          \<lparr>model_encode = (\<lambda>query. Inr ()),
           index_search = (\<lambda>emb k. Inr ([1::int], [0])),
           chunks_df = [\<lparr>col_chunk_id = 0, col_title = Some ''Influenza'',
                         col_chunk_text = ''Influenza. Fever'', col_source_id = (7::int),
                         col_url = Some ''u1''\<rparr>]\<rparr>,
        client_chat = (\<lambda>prompt. Inr '' Likely influenza. ''),
        create_diagnosis_prompt = (\<lambda>history context. context)\<rparr>
       [''and a cough''] (self1, trace') =
       ([Inr (Some (Complete_response closing_notice))], self2, trace') \<and>
     stage self2 = ''complete''"
proof -
  let ?P = "\<lparr>pipeline_retriever =
          \<lparr>model_encode = (\<lambda>query. Inr ()),
           index_search = (\<lambda>emb k. Inr ([1::int], [0])),
           chunks_df = [\<lparr>col_chunk_id = 0, col_title = Some ''Influenza'',
                         col_chunk_text = ''Influenza. Fever'', col_source_id = (7::int),
                         col_url = Some ''u1''\<rparr>]\<rparr>,
        client_chat = (\<lambda>prompt. Inr '' Likely influenza. ''),
        create_diagnosis_prompt = (\<lambda>history context. context)\<rparr>"
  let ?result = "\<lparr>diagnosis = ''Likely influenza.'',
                  sources = [\<lparr>src_title = Some ''Influenza'', src_url = Some ''u1'',
                              src_relevance_score = (1::int)\<rparr>]\<rparr>"
  let ?trace = "[Retrieval ''fever'' 3,
                 Generation (format_context
                   [\<lparr>res_rank = 1, res_score = (1::int), res_title = Some ''Influenza'',
                     res_text = ''Influenza. Fever'', res_url = Some ''u1'',
                     res_chunk_id = 0\<rparr>])]"
  have g: "generate_diagnosis ?P ''fever'' [] = (Inr ?result, ?trace)"
    by (simp add: generate_diagnosis_def retrieve_def iloc_def Let_def py_strip_def is_space_def)
  from fresh_session_single_cycle[OF g] obtain self1 where
    p: "process_message ?P ''fever'' (new_manager, []) =
       (Inr (Some (Diagnosis_response (diagnosis ?result) (sources ?result))), self1, ?trace)"
    and s1: "stage self1 = ''complete''"
    and later: "\<forall>inputs. \<exists>self2.
        process_messages ?P inputs (self1, ?trace) =
          (replicate (length inputs) (Inr (Some (Complete_response closing_notice))),
           self2, ?trace) \<and>
        stage self2 = ''complete''"
    by blast
  from later[rule_format, of "[''and a cough'']"] obtain self2 where
    m: "process_messages ?P [''and a cough''] (self1, ?trace) =
          (replicate (length [''and a cough'']) (Inr (Some (Complete_response closing_notice))),
           self2, ?trace)"
    and s2: "stage self2 = ''complete''"
    by blast
  have m': "process_messages ?P [''and a cough''] (self1, ?trace) =
          ([Inr (Some (Complete_response closing_notice))], self2, ?trace)"
    using m by simp
  have p': "process_message ?P ''fever'' (new_manager, []) =
       (Inr (Some (Diagnosis_response ''Likely influenza.''
                     [\<lparr>src_title = Some ''Influenza'', src_url = Some ''u1'',
                       src_relevance_score = 1\<rparr>])), self1, ?trace)"
    using p by simp
  have l: "length ?trace = 2" by simp
  from p' s1 l m' s2 show ?thesis by (intro exI[of _ self1] exI[of _ self2] exI[of _ ?trace] conjI)
qed

text \<open>Claim C10 on a session that has its diagnosis.\<close>

theorem process_message_complete_frame_witness:
  "stage \<lparr>conversation_history = [\<lparr>role = ''user'', content = ''fever''\<rparr>,
                                   \<lparr>role = ''assistant'', content = ''Likely influenza.''\<rparr>],
          stage = ''complete''\<rparr> = ''complete'' \<and>
   process_message
     \<lparr>pipeline_retriever =
          \<lparr>model_encode = (\<lambda>query. Inr ()),
           index_search = (\<lambda>emb k. Inr ([1::int], [0])),
           chunks_df = [\<lparr>col_chunk_id = 0, col_title = Some ''Influenza'',
                         col_chunk_text = ''Influenza. Fever'', col_source_id = (7::int),
                         col_url = Some ''u1''\<rparr>]\<rparr>,
        client_chat = (\<lambda>prompt. Inr '' Likely influenza. ''),
        create_diagnosis_prompt = (\<lambda>history context. context)\<rparr>
     ''and a cough''
     (\<lparr>conversation_history = [\<lparr>role = ''user'', content = ''fever''\<rparr>,
                               \<lparr>role = ''assistant'', content = ''Likely influenza.''\<rparr>],
       stage = ''complete''\<rparr>, [Retrieval ''fever'' 3, Generation ''p''])
   = (Inr (Some (Complete_response closing_notice)),
      \<lparr>conversation_history = [\<lparr>role = ''user'', content = ''fever''\<rparr>,
                               \<lparr>role = ''assistant'', content = ''Likely influenza.''\<rparr>,
                               \<lparr>role = ''user'', content = ''and a cough''\<rparr>],
       stage = ''complete''\<rparr>, [Retrieval ''fever'' 3, Generation ''p''])"
proof -
  let ?P = "\<lparr>pipeline_retriever =
          \<lparr>model_encode = (\<lambda>query. Inr ()),
           index_search = (\<lambda>emb k. Inr ([1::int], [0])),
           chunks_df = [\<lparr>col_chunk_id = 0, col_title = Some ''Influenza'',
                         col_chunk_text = ''Influenza. Fever'', col_source_id = (7::int),
                         col_url = Some ''u1''\<rparr>]\<rparr>,
        client_chat = (\<lambda>prompt. Inr '' Likely influenza. ''),
        create_diagnosis_prompt = (\<lambda>history context. context)\<rparr>"
  let ?m = "\<lparr>conversation_history = [\<lparr>role = ''user'', content = ''fever''\<rparr>,
                               \<lparr>role = ''assistant'', content = ''Likely influenza.''\<rparr>],
       stage = ''complete''\<rparr>"
  have h: "stage ?m = ''complete''" by simp
  from process_message_complete_frame[of ?m ?P "''and a cough''"
      "[Retrieval ''fever'' 3, Generation ''p'']"] h
  show ?thesis by simp
qed

end
